theory Spec2Isabelle
  imports Complex_Main "HOL-Library.AList"
begin

section \<open>The admin WebSocket manager\<close>

text \<open>
  The monitoring back end of the repository is the Python of
  \<^verbatim>\<open>CODE_FLOWS_INTEGRATION.md\<close> and \<^verbatim>\<open>TECHNICAL_ARCHITECTURE.md\<close>.
  \<^verbatim>\<open>AdminWebSocketManager\<close> keeps two dictionaries,
  \<^verbatim>\<open>admin_connections\<close> (admin id to WebSocket) and
  \<^verbatim>\<open>conversation_subscriptions\<close> (conversation id to a set of admin ids).
  A dictionary is an association list in insertion order, a Python set is a list
  without repetition whose order is the order in which the set is iterated.
\<close>

type_synonym admin_id = string
type_synonym conv_id = string

text \<open>
  The WebSocket class belongs to the web framework. What the manager sees of a socket
  is what \<^verbatim>\<open>await websocket.send_json(message)\<close> does: it completes, it raises
  one of the two exceptions the manager names, it raises something else, or it never
  completes. \<open>RuntimeError\<close> is what Python raises when a set is found resized
  while it is being iterated.
\<close>

datatype exn = ConnectionClosed | WebSocketDisconnect | RuntimeError | OtherError

datatype websocket = Open | Closed | Disconnected | Faulty | Stalled

datatype send_result = Sent | Throws exn | Pending

fun send_json :: "websocket \<Rightarrow> send_result" where
  "send_json Open = Sent"
| "send_json Closed = Throws ConnectionClosed"
| "send_json Disconnected = Throws WebSocketDisconnect"
| "send_json Faulty = Throws OtherError"
| "send_json Stalled = Pending"

text \<open>
  A message is a Python dict. \<^verbatim>\<open>message.get("conversation_id")\<close> is \<open>None\<close> when
  the key is missing; the other entries are opaque to the manager: a text, or the
  duration of a silence in microseconds.
\<close>

datatype payload = Text string | Duration int

record message =
  mtype :: string
  conversation_id :: "conv_id option"
  body :: payload

text \<open>
  \<open>wire\<close> is the trace of the sends that completed, oldest first: the pair
  \<open>(a, m)\<close> is appended when \<^verbatim>\<open>send_json(m)\<close> on the socket of admin \<open>a\<close> returns.
\<close>

record manager =
  admin_connections :: "(admin_id \<times> websocket) list"
  conversation_subscriptions :: "(conv_id \<times> admin_id list) list"
  wire :: "(admin_id \<times> message) list"

definition init_manager :: manager where
  "init_manager = \<lparr>admin_connections = [], conversation_subscriptions = [], wire = []\<rparr>"

datatype outcome = Returned | Raised exn | Blocked

subsection \<open>Python sets and dictionary reads\<close>

definition set_add :: "'a \<Rightarrow> 'a list \<Rightarrow> 'a list" where
  "set_add a xs = (if a \<in> set xs then xs else xs @ [a])"

definition discard :: "'a \<Rightarrow> 'a list \<Rightarrow> 'a list" where
  "discard a xs = removeAll a xs"

text \<open>\<^verbatim>\<open>self.conversation_subscriptions.get(conversation_id, set())\<close>\<close>

definition subs_get :: "manager \<Rightarrow> conv_id \<Rightarrow> admin_id list" where
  "subs_get s c = (case map_of (conversation_subscriptions s) c of None \<Rightarrow> [] | Some xs \<Rightarrow> xs)"

text \<open>Truthiness of \<^verbatim>\<open>if conversation_id:\<close>: \<open>None\<close> and the empty string are false.\<close>

fun truthy :: "string option \<Rightarrow> bool" where
  "truthy None = False"
| "truthy (Some c) = (c \<noteq> [])"

subsection \<open>\<^verbatim>\<open>remove_admin\<close>\<close>

text \<open>
  \<^verbatim>\<open>
  async def remove_admin(self, admin_id):
      if admin_id in self.admin_connections:
          del self.admin_connections[admin_id]
      for conversation_id in list(self.conversation_subscriptions.keys()):
          self.conversation_subscriptions[conversation_id].discard(admin_id)
          if not self.conversation_subscriptions[conversation_id]:
              del self.conversation_subscriptions[conversation_id]
  \<close>
  The loop visits every key once and each iteration touches the entry of its own key
  only, so it is a recursion over the entries.
\<close>

fun discard_everywhere :: "admin_id \<Rightarrow> (conv_id \<times> admin_id list) list \<Rightarrow> (conv_id \<times> admin_id list) list" where
  "discard_everywhere a [] = []"
| "discard_everywhere a ((c, xs) # rest) =
     (if discard a xs = [] then discard_everywhere a rest
      else (c, discard a xs) # discard_everywhere a rest)"

definition remove_admin :: "manager \<Rightarrow> admin_id \<Rightarrow> manager" where
  "remove_admin s a =
     s\<lparr>admin_connections := AList.delete a (admin_connections s),
       conversation_subscriptions := discard_everywhere a (conversation_subscriptions s)\<rparr>"

subsection \<open>Sending on one socket\<close>

definition send_on :: "admin_id \<Rightarrow> websocket \<Rightarrow> message \<Rightarrow> manager \<Rightarrow> outcome \<times> manager" where
  "send_on a ws m s =
     (case send_json ws of
        Sent \<Rightarrow> (Returned, s\<lparr>wire := wire s @ [(a, m)]\<rparr>)
      | Throws e \<Rightarrow> (Raised e, s)
      | Pending \<Rightarrow> (Blocked, s))"

subsection \<open>\<^verbatim>\<open>register_admin\<close> and \<^verbatim>\<open>subscribe_to_conversation\<close>\<close>

text \<open>
  \<^verbatim>\<open>
  async def register_admin(self, admin_id, websocket):
      await websocket.accept()
      self.admin_connections[admin_id] = websocket
      active_conversations = await self.get_active_conversations()
      await websocket.send_json({"type": "initial_state",
                                 "conversations": active_conversations})
  \<close>
  \<^verbatim>\<open>get_active_conversations\<close> is not part of the sources; its result is the
  parameter \<open>convs\<close>. The send is not guarded, so whatever the socket raises leaves
  the call.
\<close>

definition add_connection :: "manager \<Rightarrow> admin_id \<Rightarrow> websocket \<Rightarrow> manager" where
  "add_connection s a ws = s\<lparr>admin_connections := AList.update a ws (admin_connections s)\<rparr>"

definition register_admin :: "manager \<Rightarrow> admin_id \<Rightarrow> websocket \<Rightarrow> string \<Rightarrow> outcome \<times> manager" where
  "register_admin s a ws convs =
     send_on a ws \<lparr>mtype = ''initial_state'', conversation_id = None, body = Text convs\<rparr>
       (add_connection s a ws)"

text \<open>
  \<^verbatim>\<open>
  async def subscribe_to_conversation(self, admin_id, conversation_id):
      self.conversation_subscriptions[conversation_id].add(admin_id)
      history = await self.get_conversation_history(conversation_id)
      if admin_id in self.admin_connections:
          await self.admin_connections[admin_id].send_json({
              "type": "conversation_history",
              "conversation_id": conversation_id, "history": history})
  \<close>
  The dictionary is a \<^verbatim>\<open>defaultdict(set)\<close>: reading a missing key creates the empty
  set there. \<^verbatim>\<open>get_conversation_history\<close> is the parameter \<open>history\<close>.
\<close>

definition add_subscription :: "manager \<Rightarrow> admin_id \<Rightarrow> conv_id \<Rightarrow> manager" where
  "add_subscription s a c =
     s\<lparr>conversation_subscriptions :=
         AList.update c (set_add a (subs_get s c)) (conversation_subscriptions s)\<rparr>"

definition subscribe_to_conversation ::
    "manager \<Rightarrow> admin_id \<Rightarrow> conv_id \<Rightarrow> string \<Rightarrow> outcome \<times> manager" where
  "subscribe_to_conversation s a c history =
     (let s1 = add_subscription s a c
      in case map_of (admin_connections s1) a of
           None \<Rightarrow> (Returned, s1)
         | Some ws \<Rightarrow>
             send_on a ws
               \<lparr>mtype = ''conversation_history'', conversation_id = Some c, body = Text history\<rparr> s1)"

subsection \<open>Other tasks\<close>

text \<open>
  The manager's methods are coroutines of one event loop: while a call is suspended in
  an \<^verbatim>\<open>await\<close>, other tasks run. What they do to the two dictionaries is what the
  manager's methods do between two suspensions: the assignment of \<^verbatim>\<open>register_admin\<close>,
  which puts a socket into \<open>admin_connections\<close> (a new admin, or a new socket for a
  known one); the first line of \<^verbatim>\<open>subscribe_to_conversation\<close>, which adds an admin
  to a subscription set; and \<^verbatim>\<open>remove_admin\<close>, which has no \<^verbatim>\<open>await\<close> in
  it. A schedule says, for each \<^verbatim>\<open>await\<close> of a call in turn, which such step
  another task takes in the meantime, if any; after the end of the schedule nothing
  more happens, so the empty schedule is a call that no other task interferes with.
  The schedule has one step for each \<^verbatim>\<open>await\<close>: two steps within one suspension
  can change a set and leave its size as it was, and which elements the iteration
  then visits depends on the hash table.
\<close>

datatype other_task = Adds admin_id conv_id | Removes admin_id | Registers admin_id websocket

type_synonym schedule = "other_task option list"

fun run_task :: "manager \<Rightarrow> other_task option \<Rightarrow> manager" where
  "run_task s None = s"
| "run_task s (Some (Adds a c)) = add_subscription s a c"
| "run_task s (Some (Removes a)) = remove_admin s a"
| "run_task s (Some (Registers a ws)) = add_connection s a ws"

definition meanwhile :: "schedule \<Rightarrow> manager \<Rightarrow> manager" where
  "meanwhile sched s = (case sched of [] \<Rightarrow> s | t # rest \<Rightarrow> run_task s t)"

text \<open>
  Two kinds of schedule: one in which no task registers a socket, and one in which
  every socket registered is one that lets a send loop pass (its send returns or
  raises one of the two exceptions the manager catches).
\<close>

fun registers :: "other_task option \<Rightarrow> bool" where
  "registers (Some (Registers a ws)) = True"
| "registers t = False"

definition no_register :: "schedule \<Rightarrow> bool" where
  "no_register sched = list_all (\<lambda>t. \<not> registers t) sched"

fun registers_passing :: "other_task option \<Rightarrow> bool" where
  "registers_passing (Some (Registers a ws)) = (ws \<noteq> Faulty \<and> ws \<noteq> Stalled)"
| "registers_passing t = True"

definition passing_registers :: "schedule \<Rightarrow> bool" where
  "passing_registers sched = list_all registers_passing sched"

subsection \<open>\<^verbatim>\<open>broadcast_to_admins\<close>\<close>

text \<open>
  \<^verbatim>\<open>
  async def broadcast_to_admins(self, message: dict):
      conversation_id = message.get("conversation_id")
      if conversation_id:
          target_admins = self.conversation_subscriptions.get(conversation_id, set())
      else:
          target_admins = set(self.admin_connections.keys())
      disconnected_admins = []
      for admin_id in target_admins:
          if admin_id in self.admin_connections:
              try:
                  await self.admin_connections[admin_id].send_json(message)
              except (ConnectionClosed, WebSocketDisconnect):
                  disconnected_admins.append(admin_id)
      for admin_id in disconnected_admins:
          await self.remove_admin(admin_id)
  \<close>
\<close>

definition target_admins :: "manager \<Rightarrow> message \<Rightarrow> admin_id list" where
  "target_admins s m =
     (case conversation_id m of
        None \<Rightarrow> remdups (map fst (admin_connections s))
      | Some c \<Rightarrow>
          if truthy (Some c) then subs_get s c
          else remdups (map fst (admin_connections s)))"

text \<open>
  In the first branch \<^verbatim>\<open>target_admins\<close> is the subscription set itself, the object
  that \<^verbatim>\<open>subscribe_to_conversation\<close> and \<^verbatim>\<open>remove_admin\<close> change (or a new empty
  set when the conversation has none); in the second it is a new set made from the
  keys. \<open>iterated\<close> names the subscription set the loop walks, if it walks one. The
  iterator of a set remembers the size the set had when the loop began and raises
  \<^verbatim>\<open>RuntimeError\<close> at its next step, the step that ends the loop included, when it
  finds another size.
\<close>

definition iterated :: "message \<Rightarrow> conv_id option" where
  "iterated m =
     (case conversation_id m of
        None \<Rightarrow> None
      | Some c \<Rightarrow> if truthy (Some c) then Some c else None)"

definition resized :: "conv_id option \<Rightarrow> nat \<Rightarrow> manager \<Rightarrow> bool" where
  "resized live n s = (case live of None \<Rightarrow> False | Some c \<Rightarrow> length (subs_get s c) \<noteq> n)"

text \<open>
  The first loop, over the admins of the set in the order of the iteration. It returns
  how it ended, the list \<^verbatim>\<open>disconnected_admins\<close> and the manager. Each send is a
  suspension, during which the next step of the schedule is taken. An exception outside
  the \<^verbatim>\<open>except\<close> tuple ends the call there, and so do a resized set and a send that
  never completes.
\<close>

fun send_loop :: "message \<Rightarrow> conv_id option \<Rightarrow> nat \<Rightarrow> admin_id list \<Rightarrow> admin_id list
                    \<Rightarrow> schedule \<Rightarrow> manager \<Rightarrow> outcome \<times> admin_id list \<times> manager" where
  "send_loop m live n [] disc sched s =
     (if resized live n s then (Raised RuntimeError, disc, s) else (Returned, disc, s))"
| "send_loop m live n (a # as) disc sched s =
     (if resized live n s then (Raised RuntimeError, disc, s)
      else case map_of (admin_connections s) a of
        None \<Rightarrow> send_loop m live n as disc sched s
      | Some ws \<Rightarrow>
          (case send_json ws of
             Sent \<Rightarrow>
               send_loop m live n as disc (tl sched)
                 (meanwhile sched (s\<lparr>wire := wire s @ [(a, m)]\<rparr>))
           | Throws e \<Rightarrow>
               if e = ConnectionClosed \<or> e = WebSocketDisconnect
               then send_loop m live n as (disc @ [a]) (tl sched) (meanwhile sched s)
               else (Raised e, disc, s)
           | Pending \<Rightarrow> (Blocked, disc, s)))"

text \<open>The second loop walks a list of its own, and \<^verbatim>\<open>remove_admin\<close> never suspends.\<close>

definition broadcast_to_admins :: "manager \<Rightarrow> message \<Rightarrow> schedule \<Rightarrow> outcome \<times> manager" where
  "broadcast_to_admins s m sched =
     (case send_loop m (iterated m) (length (target_admins s m)) (target_admins s m) [] sched s of
        (Returned, disc, s1) \<Rightarrow> (Returned, foldl remove_admin s1 disc)
      | (out, disc, s1) \<Rightarrow> (out, s1))"

subsection \<open>\<^verbatim>\<open>broadcast_audio_chunk\<close>\<close>



text \<open>What one call put on the wire: the part of the trace after the old one.\<close>

definition deliveries :: "manager \<Rightarrow> manager \<Rightarrow> (admin_id \<times> message) list" where
  "deliveries s s' = drop (length (wire s)) (wire s')"

definition connected :: "manager \<Rightarrow> admin_id \<Rightarrow> websocket option" where
  "connected s a = map_of (admin_connections s) a"

text \<open>Every subscription set is a set: no admin occurs twice in it.\<close>

definition sets_ok :: "manager \<Rightarrow> bool" where
  "sets_ok s = list_all (\<lambda>(c, xs). distinct xs) (conversation_subscriptions s)"

text \<open>The subscriptions are a dictionary: no conversation has two entries.\<close>

definition keys_ok :: "manager \<Rightarrow> bool" where
  "keys_ok s = distinct (map fst (conversation_subscriptions s))"

text \<open>
  How the socket of an admin answers a send: it takes the message, it has dropped (one
  of the two exceptions the manager catches), or it lets the loop pass (anything but an
  uncaught exception or a send that never completes; an admin without a socket is
  skipped and passes too).
\<close>

definition open_for :: "manager \<Rightarrow> admin_id \<Rightarrow> bool" where
  "open_for s a = (connected s a = Some Open)"

definition dropped :: "manager \<Rightarrow> admin_id \<Rightarrow> bool" where
  "dropped s a = (connected s a = Some Closed \<or> connected s a = Some Disconnected)"

definition passes :: "manager \<Rightarrow> admin_id \<Rightarrow> bool" where
  "passes s a = (connected s a \<noteq> Some Faulty \<and> connected s a \<noteq> Some Stalled)"

text \<open>How the first loop ends on a list of targets: at the first socket that does not pass.\<close>

fun loop_end :: "manager \<Rightarrow> admin_id list \<Rightarrow> outcome" where
  "loop_end s [] = Returned"
| "loop_end s (a # as) =
     (if connected s a = Some Faulty then Raised OtherError
      else if connected s a = Some Stalled then Blocked
      else loop_end s as)"


text \<open>The admin is in the subscription set of the conversation.\<close>

definition subscribed_to :: "manager \<Rightarrow> admin_id \<Rightarrow> conv_id \<Rightarrow> bool" where
  "subscribed_to s a c = list_ex (\<lambda>(c', xs). c' = c \<and> a \<in> set xs) (conversation_subscriptions s)"

section \<open>Admin tokens\<close>

text \<open>
  \<^verbatim>\<open>
  def generate_admin_token(room_name: str, admin_id: str):
      token = AccessToken(api_key=API_KEY, api_secret=API_SECRET)
      token.with_identity(f"admin_{admin_id}")
      token.with_grants(RoomGrants(room_join=True, room=room_name,
          can_subscribe=True, can_publish=False, hidden=True))
      return token.to_jwt()
  \<close>
  The token is modelled by what it encodes; signing is the platform's. The function
  reads no table of conversations and has no failing branch: its result type carries
  the error of the issuer's contract only so that the contract can be stated.
\<close>

record room_grants =
  room_join :: bool
  room :: string
  can_subscribe :: bool
  can_publish :: bool
  hidden :: bool

record access_token =
  identity :: string
  display_name :: "string option"
  grants :: room_grants
  metadata :: "(string \<times> string list) list"

datatype issue_error = ConversationNotFound

definition generate_admin_token :: "string \<Rightarrow> string \<Rightarrow> issue_error + access_token" where
  "generate_admin_token room_name admin =
     Inr \<lparr>identity = ''admin_'' @ admin, display_name = None,
          grants = \<lparr>room_join = True, room = room_name, can_subscribe = True,
                    can_publish = False, hidden = True\<rparr>,
          metadata = []\<rparr>"

text \<open>
  \<^verbatim>\<open>
  async def setup_admin_monitoring(self, admin_id: str, room_name: str):
      token = AccessToken(api_key=LIVEKIT_API_KEY, api_secret=LIVEKIT_API_SECRET)
      token.with_identity(f"admin_{admin_id}")
      token.with_name("System Monitor")
      token.with_grants(RoomGrants(room_join=True, room=room_name,
          can_subscribe=True, can_publish=False, hidden=True))
      token.with_metadata({"role": "admin", "monitor_type": "supervisor",
          "permissions": ["audio_monitor", "transcript_view"]})
      return token.to_jwt()
  \<close>
\<close>

definition setup_admin_monitoring :: "string \<Rightarrow> string \<Rightarrow> issue_error + access_token" where
  "setup_admin_monitoring admin room_name =
     Inr \<lparr>identity = ''admin_'' @ admin, display_name = Some ''System Monitor'',
          grants = \<lparr>room_join = True, room = room_name, can_subscribe = True,
                    can_publish = False, hidden = True\<rparr>,
          metadata = [(''role'', [''admin'']), (''monitor_type'', [''supervisor'']),
                      (''permissions'', [''audio_monitor'', ''transcript_view''])]\<rparr>"

section \<open>The conversation monitor\<close>

text \<open>
  \<^verbatim>\<open>
  @dataclass
  class ConversationEvent:
      timestamp: datetime
      speaker: str
      content: str
      confidence: float
      is_final: bool
      event_type: str

  class ConversationMonitor:
      def __init__(self, conversation_id: str):
          self.conversation_id = conversation_id
          self.events = []
          self.metadata = {"start_time": datetime.utcnow(),
                           "participants": [], "status": "active"}
          self.db = DatabaseDriver()

      async def log_event(self, event: ConversationEvent):
          self.events.append(event)
          await self.db.store_event(self.conversation_id, event)
          await self.broadcast_to_admins(event)
  \<close>
  Time stamps are microseconds. \<^verbatim>\<open>store_event\<close> and the monitor's own
  \<^verbatim>\<open>broadcast_to_admins\<close> are outside the sources, and neither call is guarded:
  how each of them ends is a parameter of \<open>log_event\<close>. The monitor records what the
  database took (\<open>stored\<close>) and what was handed to the broadcast (\<open>announced\<close>).
\<close>

record conversation_event =
  timestamp :: int
  speaker :: string
  content :: string
  confidence :: real
  is_final :: bool
  event_type :: string

record conversation_monitor =
  monitor_conversation_id :: conv_id
  events :: "conversation_event list"
  start_time :: int
  participants :: "string list"
  status :: string
  stored :: "(conv_id \<times> conversation_event) list"
  announced :: "conversation_event list"

definition new_monitor :: "conv_id \<Rightarrow> int \<Rightarrow> conversation_monitor" where
  "new_monitor c t =
     \<lparr>monitor_conversation_id = c, events = [], start_time = t, participants = [],
      status = ''active'', stored = [], announced = []\<rparr>"

definition log_event ::
    "outcome \<Rightarrow> outcome \<Rightarrow> conversation_monitor \<Rightarrow> conversation_event
       \<Rightarrow> outcome \<times> conversation_monitor" where
  "log_event store_ends broadcast_ends mon e =
     (let m1 = mon\<lparr>events := events mon @ [e]\<rparr>
      in case store_ends of
           Returned \<Rightarrow>
             (broadcast_ends,
              m1\<lparr>stored := stored m1 @ [(monitor_conversation_id m1, e)],
                 announced := announced m1 @ [e]\<rparr>)
         | out \<Rightarrow> (out, m1))"

section \<open>The health monitor\<close>




datatype action = Publish message | Sleep nat





definition alerts :: "action list \<Rightarrow> message list" where
  "alerts acts = concat (map (\<lambda>a. case a of Publish m \<Rightarrow> [m] | Sleep n \<Rightarrow> []) acts)"

definition sleeps :: "action list \<Rightarrow> nat list" where
  "sleeps acts = concat (map (\<lambda>a. case a of Publish m \<Rightarrow> [] | Sleep n \<Rightarrow> [n]) acts)"




section \<open>Shutting a conversation down\<close>

text \<open>
  \<^verbatim>\<open>
  async def graceful_shutdown(self):
      try:
          if self._egress_started:
              await self.stop_recording()
          await self.monitor.finalize_conversation()
          await self.broadcast_shutdown_event()
      except Exception as e:
          logger.error(f"Error during shutdown: {e}")
      finally:
          if self.room:
              await self.room.disconnect()
  \<close>
  \<^verbatim>\<open>stop_recording\<close> re-raises what the egress client raises;
  \<^verbatim>\<open>finalize_conversation\<close> is outside the sources. Whether either raises is a
  field of the agent.
\<close>

record agent =
  egress_started :: bool
  stop_recording_raises :: bool
  finalize_raises :: bool
  room_connected :: bool
  agent_conversation :: conv_id
  websocket_manager :: manager

text \<open>
  The dashboard of the sources switches on the message type \<^verbatim>\<open>conversation_ended\<close>
  to drop a conversation from its list.
\<close>

definition conversation_ended :: "conv_id \<Rightarrow> message" where
  "conversation_ended c = \<lparr>mtype = ''conversation_ended'', conversation_id = Some c, body = Text []\<rparr>"

text \<open>
  Modelled from the spec: \<^verbatim>\<open>broadcast_shutdown_event\<close> is called by
  \<^verbatim>\<open>graceful_shutdown\<close> and defined nowhere in the sources. The specification has
  every subscriber still attached receive one final \<open>ConversationEnded\<close> event before
  being detached, and the topic removed in the same logical step. The event goes out
  through \<open>broadcast_to_admins\<close>, the one fan-out the sources have, as one step (no
  other task in between); the topic is then deleted from
  \<open>conversation_subscriptions\<close>.
\<close>

definition broadcast_shutdown_event :: "manager \<Rightarrow> conv_id \<Rightarrow> outcome \<times> manager" where
  "broadcast_shutdown_event s c =
     (case broadcast_to_admins s (conversation_ended c) [] of
        (Returned, s1) \<Rightarrow>
          (Returned, s1\<lparr>conversation_subscriptions := AList.delete c (conversation_subscriptions s1)\<rparr>)
      | (out, s1) \<Rightarrow> (out, s1))"

definition shutdown_steps :: "agent \<Rightarrow> outcome \<times> agent" where
  "shutdown_steps ag =
     (if egress_started ag \<and> stop_recording_raises ag then (Raised OtherError, ag)
      else if finalize_raises ag then (Raised OtherError, ag)
      else (case broadcast_shutdown_event (websocket_manager ag) (agent_conversation ag) of
              (out, s1) \<Rightarrow> (out, ag\<lparr>websocket_manager := s1\<rparr>)))"

definition graceful_shutdown :: "agent \<Rightarrow> outcome \<times> agent" where
  "graceful_shutdown ag =
     (case shutdown_steps ag of
        (Blocked, ag1) \<Rightarrow> (Blocked, ag1)
      | (out, ag1) \<Rightarrow> (Returned, ag1\<lparr>room_connected := False\<rparr>))"

section \<open>The conversation registry\<close>

text \<open>
  Modelled from the spec: the registry is missing from the sources. The agent calls
  \<^verbatim>\<open>self.monitor.log_participant_joined\<close> and \<^verbatim>\<open>log_participant_left\<close>, which
  are defined nowhere, and the dashboard shows the platform's own participant list.
  The specification names the kinds of event.
\<close>

datatype event_kind =
    ParticipantJoined | ParticipantLeft | InterimTranscript | FinalTranscript
  | SilenceAlert | RecordingStateChanged | ConversationEnded

text \<open>
  Modelled from the spec: a \<open>ConversationEvent\<close> has a conversation, a kind and a time
  stamp; the payload is left out, no counter is said to depend on it.
\<close>

record registry_event =
  event_conversation :: conv_id
  kind :: event_kind
  event_time :: int

text \<open>Modelled from the spec: the status of a session is \<open>Active\<close> or \<open>Ended\<close>.\<close>

datatype session_status = Active | Ended

text \<open>
  Modelled from the spec: a \<open>ConversationSession\<close>, stored under its id, has
  \<open>startedAt\<close>, a status, the two counters and \<open>lastActivityAt\<close>.
\<close>

record conversation_session =
  startedAt :: int
  session_status :: session_status
  participantCount :: int
  publisherCount :: int
  lastActivityAt :: int

type_synonym registry = "(conv_id \<times> conversation_session) list"

text \<open>
  Modelled from the spec: \<open>applyEvent\<close> creates a session when it sees the first join
  for an unknown id, drops an event for an already ended conversation, counts a join
  up and a leave down, marks the session ended on \<open>ConversationEnded\<close>, and takes any
  other event as activity. The specification gives no rule for \<open>publisherCount\<close> and
  does not say what a leave does to a count of zero: the counter is an integer and the
  leave is counted down like any other.
\<close>

definition applyEvent :: "registry \<Rightarrow> registry_event \<Rightarrow> registry" where
  "applyEvent reg e =
     (case map_of reg (event_conversation e) of
        None \<Rightarrow>
          if kind e = ParticipantJoined
          then AList.update (event_conversation e)
                 \<lparr>startedAt = event_time e, session_status = Active, participantCount = 1,
                  publisherCount = 0, lastActivityAt = event_time e\<rparr> reg
          else reg
      | Some sess \<Rightarrow>
          if session_status sess = Ended then reg
          else AList.update (event_conversation e)
                 (case kind e of
                    ParticipantJoined \<Rightarrow> sess\<lparr>participantCount := participantCount sess + 1\<rparr>
                  | ParticipantLeft \<Rightarrow> sess\<lparr>participantCount := participantCount sess - 1\<rparr>
                  | ConversationEnded \<Rightarrow> sess\<lparr>session_status := Ended\<rparr>
                  | _ \<Rightarrow> sess\<lparr>lastActivityAt := event_time e\<rparr>) reg)"

text \<open>Modelled from the spec: a sequence of events is applied one event after the other.\<close>

definition applyEvents :: "registry \<Rightarrow> registry_event list \<Rightarrow> registry" where
  "applyEvents reg evs = foldl applyEvent reg evs"

text \<open>The claim's side: the joins and the leaves of one conversation in a sequence.\<close>

definition joins :: "registry_event list \<Rightarrow> conv_id \<Rightarrow> nat" where
  "joins evs c = length (filter (\<lambda>e. event_conversation e = c \<and> kind e = ParticipantJoined) evs)"

definition leaves :: "registry_event list \<Rightarrow> conv_id \<Rightarrow> nat" where
  "leaves evs c = length (filter (\<lambda>e. event_conversation e = c \<and> kind e = ParticipantLeft) evs)"

definition membership_only :: "registry_event list \<Rightarrow> bool" where
  "membership_only evs = list_all (\<lambda>e. kind e = ParticipantJoined \<or> kind e = ParticipantLeft) evs"

text \<open>
  A sequence is balanced for a conversation when, read from the start with \<open>n\<close>
  participants present, no leave of that conversation comes with nobody present.
\<close>

fun balanced :: "conv_id \<Rightarrow> int \<Rightarrow> registry_event list \<Rightarrow> bool" where
  "balanced c n [] = True"
| "balanced c n (e # es) =
     (if event_conversation e = c \<and> kind e = ParticipantJoined then balanced c (n + 1) es
      else if event_conversation e = c \<and> kind e = ParticipantLeft then 0 < n \<and> balanced c (n - 1) es
      else balanced c n es)"

text \<open>
  The registry counts \<open>n\<close> participants for a conversation: it has no session for it
  and \<open>n\<close> is zero, or it has an active session whose \<open>participantCount\<close> is \<open>n\<close>.
\<close>

definition counted :: "registry \<Rightarrow> conv_id \<Rightarrow> int \<Rightarrow> bool" where
  "counted reg c n =
     (case map_of reg c of
        None \<Rightarrow> n = 0
      | Some sess \<Rightarrow> participantCount sess = n \<and> session_status sess = Active)"

section \<open>Example states\<close>

definition hello :: message where
  "hello = \<lparr>mtype = ''final_transcript'', conversation_id = Some ''room-42'', body = Text ''hello''\<rparr>"

definition bye :: message where
  "bye = \<lparr>mtype = ''final_transcript'', conversation_id = Some ''room-42'', body = Text ''bye''\<rparr>"

definition interim :: message where
  "interim = \<lparr>mtype = ''interim_transcript'', conversation_id = Some ''room-42'', body = Text ''hel''\<rparr>"



text \<open>Two admins watch room-42; the socket of the first is in the given state.\<close>

definition watching :: "websocket \<Rightarrow> manager" where
  "watching ws =
     \<lparr>admin_connections = [(''admin-1'', ws), (''admin-2'', Open)],
      conversation_subscriptions = [(''room-42'', [''admin-1'', ''admin-2'']), (''room-7'', [''admin-1''])],
      wire = []\<rparr>"


definition agent_of :: "manager \<Rightarrow> bool \<Rightarrow> agent" where
  "agent_of s fails =
     \<lparr>egress_started = True, stop_recording_raises = fails, finalize_raises = False,
      room_connected = True, agent_conversation = ''room-42'', websocket_manager = s\<rparr>"

definition ev :: "event_kind \<Rightarrow> registry_event" where
  "ev k = \<lparr>event_conversation = ''room-42'', kind = k, event_time = 0\<rparr>"


definition greeting :: conversation_event where
  "greeting = \<lparr>timestamp = 0, speaker = ''customer'', content = ''hello'', confidence = 1,
               is_final = True, event_type = ''speech''\<rparr>"

text \<open>
  A monitor of room-42 whose status is ended. The sources initialise the status to
  active and change it nowhere, so the value is put there directly.
\<close>

definition ended_monitor :: conversation_monitor where
  "ended_monitor = (new_monitor ''room-42'' 0)\<lparr>status := ''ended''\<rparr>"





text \<open>While the first send is awaited, another task subscribes admin-3 to room-42.\<close>

definition joins_meanwhile :: schedule where
  "joins_meanwhile = [Some (Adds ''admin-3'' ''room-42'')]"

section \<open>Facts about the manager\<close>

lemma connected_wire [simp]: "connected (s\<lparr>wire := w\<rparr>) a = connected s a"
  by (simp add: connected_def)

lemma open_for_wire [simp]: "open_for (s\<lparr>wire := w\<rparr>) = open_for s"
  by (simp add: open_for_def fun_eq_iff)

lemma dropped_wire [simp]: "dropped (s\<lparr>wire := w\<rparr>) = dropped s"
  by (simp add: dropped_def fun_eq_iff)

lemma passes_wire [simp]: "passes (s\<lparr>wire := w\<rparr>) = passes s"
  by (simp add: passes_def fun_eq_iff)

lemma loop_end_wire [simp]: "loop_end (s\<lparr>wire := w\<rparr>) as = loop_end s as"
  by (induction as) simp_all

lemma subs_get_wire [simp]: "subs_get (s\<lparr>wire := w\<rparr>) c = subs_get s c"
  by (simp add: subs_get_def)

lemma target_admins_wire [simp]: "target_admins (s\<lparr>wire := w\<rparr>) m = target_admins s m"
  by (simp add: target_admins_def subs_get_def split: option.split)

lemma resized_wire [simp]: "resized live n (s\<lparr>wire := w\<rparr>) = resized live n s"
  by (simp add: resized_def split: option.split)

lemma meanwhile_Nil [simp]: "meanwhile [] s = s"
  by (simp add: meanwhile_def)

lemma not_resized_start [simp]: "\<not> resized (iterated m) (length (target_admins s m)) s"
  by (simp add: resized_def iterated_def target_admins_def split: option.split)

text \<open>
  The first loop of a call that no other task interferes with, in closed form: it works
  through the targets up to the first socket that does not pass.
\<close>

lemma send_loop_alone:
  "\<not> resized live n s \<Longrightarrow>
   send_loop m live n as disc [] s =
     (loop_end s as,
      disc @ filter (dropped s) (takeWhile (passes s) as),
      s\<lparr>wire := wire s @ map (\<lambda>a. (a, m)) (filter (open_for s) (takeWhile (passes s) as))\<rparr>)"
proof (induction as arbitrary: disc s)
  case Nil
  then show ?case by simp
next
  case (Cons a as)
  from Cons.prems have nr: "\<not> resized live n (s\<lparr>wire := wire s @ [(a, m)]\<rparr>)" by simp
  show ?case
  proof (cases "map_of (admin_connections s) a")
    case None
    then show ?thesis
      using Cons.IH [OF Cons.prems, of disc] Cons.prems
      by (simp add: passes_def dropped_def open_for_def connected_def)
  next
    case (Some ws)
    then show ?thesis
      using Cons.IH [OF nr, of disc] Cons.IH [OF Cons.prems, of "disc @ [a]"] Cons.prems
      by (cases ws) (simp_all add: passes_def dropped_def open_for_def connected_def)
  qed
qed

lemma loop_end_Returned: "loop_end s as = Returned \<longleftrightarrow> (\<forall>a\<in>set as. passes s a)"
  by (induction as) (auto simp: passes_def)

lemma remove_admin_wire [simp]: "wire (remove_admin s a) = wire s"
  by (simp add: remove_admin_def)

lemma foldl_remove_admin_wire [simp]: "wire (foldl remove_admin s as) = wire s"
  by (induction as arbitrary: s) simp_all




lemma takeWhile_all: "\<forall>b\<in>set xs. P b \<Longrightarrow> takeWhile P xs = xs"
  by simp

lemma broadcast_Returned:
  assumes "\<forall>b\<in>set (target_admins s m). passes s b"
  shows "broadcast_to_admins s m [] =
     (Returned,
      foldl remove_admin
        (s\<lparr>wire := wire s @ map (\<lambda>a. (a, m)) (filter (open_for s) (target_admins s m))\<rparr>)
        (filter (dropped s) (target_admins s m)))"
proof -
  have "loop_end s (target_admins s m) = Returned"
    using assms by (simp add: loop_end_Returned)
  then show ?thesis
    using assms by (simp add: broadcast_to_admins_def send_loop_alone takeWhile_all)
qed

lemma count_list_tag: "count_list (map (\<lambda>a. (a, m)) xs) (a, m) = count_list xs a"
  by (induction xs) simp_all

lemma count_list_distinct: "distinct xs \<Longrightarrow> count_list xs a = (if a \<in> set xs then 1 else 0)"
  by (induction xs) auto

lemma sets_ok_subs_get: "sets_ok s \<Longrightarrow> distinct (subs_get s c)"
  by (auto simp: sets_ok_def subs_get_def list_all_iff split: option.splits dest!: map_of_SomeD)



text \<open>Removing admins.\<close>

lemma discard_everywhere_idem:
  "discard_everywhere a (discard_everywhere a subs) = discard_everywhere a subs"
  by (induction subs rule: discard_everywhere.induct) (simp_all add: discard_def)

lemma discard_everywhere_absent:
  "list_all (\<lambda>(c, xs). a \<notin> set xs \<and> xs \<noteq> []) subs \<Longrightarrow> discard_everywhere a subs = subs"
  by (induction subs rule: discard_everywhere.induct) (simp_all add: discard_def)

lemma delete_absent: "map_of al k = None \<Longrightarrow> AList.delete k al = al"
  by (induction al) (auto split: if_splits)














lemma subscribed_to_wire [simp]: "subscribed_to (s\<lparr>wire := w\<rparr>) b c = subscribed_to s b c"
  by (simp add: subscribed_to_def)

text \<open>What other tasks do in the meantime: nothing to the wire.\<close>

lemma wire_add_subscription [simp]: "wire (add_subscription s a c) = wire s"
  by (simp add: add_subscription_def)

lemma wire_add_connection [simp]: "wire (add_connection s a ws) = wire s"
  by (simp add: add_connection_def)

lemma wire_run_task [simp]: "wire (run_task s t) = wire s"
  by (cases "(s, t)" rule: run_task.cases) simp_all

lemma wire_meanwhile [simp]: "wire (meanwhile sched s) = wire s"
  by (simp add: meanwhile_def split: list.split)

lemma connected_add_subscription [simp]: "connected (add_subscription s a c) b = connected s b"
  by (simp add: add_subscription_def connected_def)


text \<open>Schedules in which no socket is registered: no socket appears or changes.\<close>

lemma no_register_Nil [simp]: "no_register []"
  by (simp add: no_register_def)

lemma no_register_Cons [simp]: "no_register (t # sched) = (\<not> registers t \<and> no_register sched)"
  by (simp add: no_register_def)


lemma passing_registers_Nil [simp]: "passing_registers []"
  by (simp add: passing_registers_def)

lemma passing_registers_Cons [simp]:
  "passing_registers (t # sched) = (registers_passing t \<and> passing_registers sched)"
  by (simp add: passing_registers_def)


lemma no_register_passing: "no_register sched \<Longrightarrow> passing_registers sched"
proof (induction sched)
  case Nil
  show ?case by simp
next
  case (Cons t sched)
  then show ?case by (cases t rule: registers.cases) simp_all
qed



text \<open>
  Whatever the schedule, the first loop adds to the wire the message for some of its
  targets, each at most once.
\<close>

lemma send_loop_wire:
  "send_loop m live n as disc sched s = (out, disc', s') \<Longrightarrow>
   \<exists>D. wire s' = wire s @ map (\<lambda>a. (a, m)) D
      \<and> (distinct as \<longrightarrow> distinct D)
      \<and> set D \<subseteq> set as"
proof (induction as arbitrary: disc sched s)
  case Nil
  then show ?case by (auto split: if_splits)
next
  case (Cons a as)
  show ?case
  proof (cases "resized live n s")
    case True
    with Cons.prems show ?thesis by auto
  next
    case nr: False
    show ?thesis
    proof (cases "map_of (admin_connections s) a")
      case None
      with nr Cons.prems have "send_loop m live n as disc sched s = (out, disc', s')" by simp
      from Cons.IH [OF this] obtain D where
        "wire s' = wire s @ map (\<lambda>a. (a, m)) D" "distinct as \<longrightarrow> distinct D"
        "set D \<subseteq> set as" by blast
      then show ?thesis by (intro exI [of _ D]) auto
    next
      case (Some ws)
      show ?thesis
      proof (cases "send_json ws")
        case Sent
        let ?s1 = "meanwhile sched (s\<lparr>wire := wire s @ [(a, m)]\<rparr>)"
        from nr Some Sent Cons.prems
        have "send_loop m live n as disc (tl sched) ?s1 = (out, disc', s')" by simp
        from Cons.IH [OF this] obtain D where D:
          "wire s' = wire ?s1 @ map (\<lambda>a. (a, m)) D" "distinct as \<longrightarrow> distinct D"
          "set D \<subseteq> set as" by blast
        have "wire s' = wire s @ map (\<lambda>a. (a, m)) (a # D)" using D(1) by simp
        moreover have "distinct (a # as) \<longrightarrow> distinct (a # D)" using D(2,3) by auto
        moreover have "set (a # D) \<subseteq> set (a # as)" using D(3) by auto
        ultimately show ?thesis by blast
      next
        case (Throws e)
        show ?thesis
        proof (cases "e = ConnectionClosed \<or> e = WebSocketDisconnect")
          case True
          let ?s1 = "meanwhile sched s"
          from nr Some Throws True Cons.prems
          have "send_loop m live n as (disc @ [a]) (tl sched) ?s1 = (out, disc', s')" by auto
          from Cons.IH [OF this] obtain D where D:
            "wire s' = wire ?s1 @ map (\<lambda>a. (a, m)) D" "distinct as \<longrightarrow> distinct D"
            "set D \<subseteq> set as" by blast
          have "wire s' = wire s @ map (\<lambda>a. (a, m)) D" using D(1) by simp
          moreover have "distinct (a # as) \<longrightarrow> distinct D" using D(2) by auto
          moreover have "set D \<subseteq> set (a # as)" using D(3) by auto
          ultimately show ?thesis by blast
        next
          case False
          with nr Some Throws Cons.prems have "s' = s" by auto
          then show ?thesis by (intro exI [of _ "[]"]) simp
        qed
      next
        case Pending
        with nr Some Cons.prems have "s' = s" by auto
        then show ?thesis by (intro exI [of _ "[]"]) simp
      qed
    qed
  qed
qed


lemma broadcast_wire_any:
  "\<exists>D. wire (snd (broadcast_to_admins s m sched)) = wire s @ map (\<lambda>a. (a, m)) D
      \<and> (distinct (target_admins s m) \<longrightarrow> distinct D)
      \<and> set D \<subseteq> set (target_admins s m)"
proof -
  obtain out disc' s' where
    r: "send_loop m (iterated m) (length (target_admins s m)) (target_admins s m) [] sched s
          = (out, disc', s')"
    by (cases "send_loop m (iterated m) (length (target_admins s m)) (target_admins s m) [] sched s")
       auto
  from send_loop_wire [OF r] obtain D where
    "wire s' = wire s @ map (\<lambda>a. (a, m)) D" "distinct (target_admins s m) \<longrightarrow> distinct D"
    "set D \<subseteq> set (target_admins s m)" by blast
  moreover have "wire (snd (broadcast_to_admins s m sched)) = wire s'"
    by (cases out) (simp_all add: broadcast_to_admins_def r)
  ultimately show ?thesis by (intro exI [of _ D]) simp
qed

lemma broadcast_deliveries_any:
  "\<exists>D. deliveries s (snd (broadcast_to_admins s m sched)) = map (\<lambda>a. (a, m)) D
      \<and> wire (snd (broadcast_to_admins s m sched)) = wire s @ map (\<lambda>a. (a, m)) D
      \<and> (distinct (target_admins s m) \<longrightarrow> distinct D)
      \<and> set D \<subseteq> set (target_admins s m)"
proof -
  from broadcast_wire_any [of s m sched] obtain D where D:
    "wire (snd (broadcast_to_admins s m sched)) = wire s @ map (\<lambda>a. (a, m)) D"
    "distinct (target_admins s m) \<longrightarrow> distinct D"
    "set D \<subseteq> set (target_admins s m)" by blast
  then show ?thesis by (intro exI [of _ D]) (simp add: deliveries_def)
qed


text \<open>The subscriptions stay a dictionary.\<close>

lemma keys_discard_everywhere: "fst ` set (discard_everywhere a subs) \<subseteq> fst ` set subs"
  by (induction a subs rule: discard_everywhere.induct) auto

lemma distinct_keys_discard_everywhere:
  "distinct (map fst subs) \<Longrightarrow> distinct (map fst (discard_everywhere a subs))"
proof (induction a subs rule: discard_everywhere.induct)
  case (1 a)
  show ?case by simp
next
  case (2 a c xs rest)
  then show ?case using keys_discard_everywhere [of a rest] by auto
qed

lemma keys_ok_wire [simp]: "keys_ok (s\<lparr>wire := w\<rparr>) = keys_ok s"
  by (simp add: keys_ok_def)

lemma keys_ok_run_task: "keys_ok s \<Longrightarrow> keys_ok (run_task s t)"
  by (cases "(s, t)" rule: run_task.cases)
     (simp_all add: keys_ok_def add_subscription_def remove_admin_def add_connection_def
        distinct_update distinct_keys_discard_everywhere)

lemma keys_ok_meanwhile: "keys_ok s \<Longrightarrow> keys_ok (meanwhile sched s)"
  by (simp add: meanwhile_def keys_ok_run_task split: list.split)






lemma subs_get_add_connection [simp]: "subs_get (add_connection s a ws) c = subs_get s c"
  by (simp add: subs_get_def add_connection_def)










text \<open>The subscription sets stay sets, and the subscriptions stay a dictionary.\<close>

lemma sets_ok_init: "sets_ok init_manager"
  by (simp add: sets_ok_def init_manager_def)

lemma keys_ok_init: "keys_ok init_manager"
  by (simp add: keys_ok_def init_manager_def)

lemma distinct_set_add: "distinct xs \<Longrightarrow> distinct (set_add a xs)"
  by (simp add: set_add_def)

lemma list_all_update:
  "list_all (\<lambda>(c, xs). P xs) al \<Longrightarrow> P v \<Longrightarrow> list_all (\<lambda>(c, xs). P xs) (AList.update k v al)"
  by (induction al) auto

lemma sets_ok_wire [simp]: "sets_ok (s\<lparr>wire := w\<rparr>) = sets_ok s"
  by (simp add: sets_ok_def)

lemma sets_ok_send_on: "sets_ok s \<Longrightarrow> sets_ok (snd (send_on a ws m s))"
  by (cases ws) (simp_all add: send_on_def)

lemma keys_ok_send_on: "keys_ok s \<Longrightarrow> keys_ok (snd (send_on a ws m s))"
  by (cases ws) (simp_all add: send_on_def)

lemma sets_ok_add_subscription: "sets_ok s \<Longrightarrow> sets_ok (add_subscription s a c)"
proof -
  assume ok: "sets_ok s"
  then have "distinct (set_add a (subs_get s c))"
    by (simp add: distinct_set_add sets_ok_subs_get)
  with ok show ?thesis
    by (simp add: sets_ok_def add_subscription_def list_all_update)
qed

lemma keys_ok_add_subscription: "keys_ok s \<Longrightarrow> keys_ok (add_subscription s a c)"
  using keys_ok_run_task [of s "Some (Adds a c)"] by simp

lemma sets_ok_subscribe: "sets_ok s \<Longrightarrow> sets_ok (snd (subscribe_to_conversation s a c h))"
  by (auto simp: subscribe_to_conversation_def Let_def sets_ok_send_on sets_ok_add_subscription
      split: option.splits)

lemma keys_ok_subscribe: "keys_ok s \<Longrightarrow> keys_ok (snd (subscribe_to_conversation s a c h))"
  by (auto simp: subscribe_to_conversation_def Let_def keys_ok_send_on keys_ok_add_subscription
      split: option.splits)

lemma distinct_discard_everywhere:
  "list_all (\<lambda>(c, xs). distinct xs) subs \<Longrightarrow> list_all (\<lambda>(c, xs). distinct xs) (discard_everywhere a subs)"
  by (induction a subs rule: discard_everywhere.induct) (simp_all add: discard_def distinct_removeAll)

lemma sets_ok_remove_admin: "sets_ok s \<Longrightarrow> sets_ok (remove_admin s a)"
  by (simp add: sets_ok_def remove_admin_def distinct_discard_everywhere)

lemma keys_ok_remove_admin: "keys_ok s \<Longrightarrow> keys_ok (remove_admin s a)"
  using keys_ok_run_task [of s "Some (Removes a)"] by simp

lemma sets_ok_foldl: "sets_ok s \<Longrightarrow> sets_ok (foldl remove_admin s D)"
  by (induction D arbitrary: s) (simp_all add: sets_ok_remove_admin)

lemma keys_ok_foldl: "keys_ok s \<Longrightarrow> keys_ok (foldl remove_admin s D)"
  by (induction D arbitrary: s) (simp_all add: keys_ok_remove_admin)

lemma sets_ok_add_connection: "sets_ok s \<Longrightarrow> sets_ok (add_connection s a ws)"
  by (simp add: sets_ok_def add_connection_def)

lemma keys_ok_add_connection: "keys_ok s \<Longrightarrow> keys_ok (add_connection s a ws)"
  by (simp add: keys_ok_def add_connection_def)

lemma sets_ok_run_task: "sets_ok s \<Longrightarrow> sets_ok (run_task s t)"
  by (cases "(s, t)" rule: run_task.cases)
     (simp_all add: sets_ok_add_subscription sets_ok_remove_admin sets_ok_add_connection)

lemma sets_ok_meanwhile: "sets_ok s \<Longrightarrow> sets_ok (meanwhile sched s)"
  by (simp add: meanwhile_def sets_ok_run_task split: list.split)

lemma send_loop_ok:
  "sets_ok s \<Longrightarrow> keys_ok s \<Longrightarrow>
   sets_ok (snd (snd (send_loop m live n as disc sched s)))
 \<and> keys_ok (snd (snd (send_loop m live n as disc sched s)))"
proof (induction as arbitrary: disc sched s)
  case Nil
  then show ?case by simp
next
  case (Cons a as)
  have 1: "sets_ok (snd (snd (send_loop m live n as disc (tl sched)
                (meanwhile sched (s\<lparr>wire := wire s @ [(a, m)]\<rparr>)))))
         \<and> keys_ok (snd (snd (send_loop m live n as disc (tl sched)
                (meanwhile sched (s\<lparr>wire := wire s @ [(a, m)]\<rparr>)))))"
    using Cons.prems by (intro Cons.IH sets_ok_meanwhile keys_ok_meanwhile) simp_all
  have 2: "sets_ok (snd (snd (send_loop m live n as (disc @ [a]) (tl sched) (meanwhile sched s))))
         \<and> keys_ok (snd (snd (send_loop m live n as (disc @ [a]) (tl sched) (meanwhile sched s))))"
    using Cons.prems by (intro Cons.IH sets_ok_meanwhile keys_ok_meanwhile)
  have 3: "sets_ok (snd (snd (send_loop m live n as disc sched s)))
         \<and> keys_ok (snd (snd (send_loop m live n as disc sched s)))"
    using Cons.prems by (intro Cons.IH)
  show ?case
  proof (cases "map_of (admin_connections s) a")
    case None
    with 3 Cons.prems show ?thesis by simp
  next
    case (Some ws)
    with 1 2 Cons.prems show ?thesis by (cases ws) simp_all
  qed
qed

lemma broadcast_ok:
  assumes "sets_ok s" "keys_ok s"
  shows "sets_ok (snd (broadcast_to_admins s m sched))" "keys_ok (snd (broadcast_to_admins s m sched))"
proof -
  let ?r = "send_loop m (iterated m) (length (target_admins s m)) (target_admins s m) [] sched s"
  from send_loop_ok [OF assms] have ok: "sets_ok (snd (snd ?r))" "keys_ok (snd (snd ?r))"
    by simp_all
  obtain out disc' s' where r: "?r = (out, disc', s')" by (cases ?r) auto
  with ok have "sets_ok s'" "keys_ok s'" by simp_all
  then show "sets_ok (snd (broadcast_to_admins s m sched))"
    "keys_ok (snd (broadcast_to_admins s m sched))"
    by (cases out; simp add: broadcast_to_admins_def r sets_ok_foldl keys_ok_foldl)+
qed

lemma sets_ok_register: "sets_ok s \<Longrightarrow> sets_ok (snd (register_admin s a ws convs))"
  by (cases ws) (simp_all add: register_admin_def send_on_def sets_ok_add_connection)

lemma keys_ok_register: "keys_ok s \<Longrightarrow> keys_ok (snd (register_admin s a ws convs))"
  by (cases ws) (simp_all add: register_admin_def send_on_def keys_ok_add_connection)

text \<open>
  The example state in which two admins watch room-42 is what the manager's own
  operations build from the empty manager: two registrations and three subscriptions
  (the wire then holds the initial state and the histories that were sent).
\<close>

lemma watching_built:
  "(let s1 = snd (register_admin init_manager ''admin-1'' Open []);
        s2 = snd (register_admin s1 ''admin-2'' Open []);
        s3 = snd (subscribe_to_conversation s2 ''admin-1'' ''room-42'' []);
        s4 = snd (subscribe_to_conversation s3 ''admin-2'' ''room-42'' []);
        s5 = snd (subscribe_to_conversation s4 ''admin-1'' ''room-7'' [])
    in admin_connections s5 = admin_connections (watching Open)
     \<and> conversation_subscriptions s5 = conversation_subscriptions (watching Open))"
  by (simp add: register_admin_def add_connection_def subscribe_to_conversation_def
      add_subscription_def send_on_def
      init_manager_def subs_get_def set_add_def watching_def Let_def)




lemma target_admins_kind [simp]: "target_admins s (m\<lparr>mtype := k, body := p\<rparr>) = target_admins s m"
  by (simp add: target_admins_def)

lemma iterated_kind [simp]: "iterated (m\<lparr>mtype := k, body := p\<rparr>) = iterated m"
  by (simp add: iterated_def)

text \<open>Evaluating the examples.\<close>

lemma watching_targets [simp]:
  "target_admins (watching ws) hello = [''admin-1'', ''admin-2'']"
  "target_admins (watching ws) bye = [''admin-1'', ''admin-2'']"
  "target_admins (watching ws) interim = [''admin-1'', ''admin-2'']"
  "subs_get (watching ws) ''room-42'' = [''admin-1'', ''admin-2'']"
  by (simp_all add: target_admins_def subs_get_def watching_def hello_def bye_def interim_def)

lemma watching_connected [simp]:
  "connected (watching ws) ''admin-1'' = Some ws"
  "connected (watching ws) ''admin-2'' = Some Open"
  "connected (watching ws) ''admin-3'' = None"
  by (simp_all add: connected_def watching_def)

lemma watching_sets_ok [simp]: "sets_ok (watching ws)"
  by (simp add: sets_ok_def watching_def)

lemma watching_keys_ok [simp]: "keys_ok (watching ws)"
  by (simp add: keys_ok_def watching_def)

lemma watching_wire [simp]: "wire (watching ws) = []"
  by (simp add: watching_def)

section \<open>Claim C1: one delivery per publish call, in publish order\<close>




section \<open>Claim C5: a failed send is contained\<close>




section \<open>Claim C6: buffering and overflow\<close>








section \<open>Claim C8: removing an admin is idempotent\<close>

text \<open>
  Claim C8. \<open>remove_admin\<close> is the teardown of the sources. Calling it twice in a row
  gives the state that calling it once gives, and it has no failing branch. On an
  admin that has no socket and is in no subscription set, it changes nothing (no
  subscription set being empty, as the manager leaves them).
\<close>

theorem remove_admin_idempotent:
  "remove_admin (remove_admin s a) a = remove_admin s a
 \<and> (connected s a = None
      \<and> list_all (\<lambda>(c, xs). a \<notin> set xs \<and> xs \<noteq> []) (conversation_subscriptions s)
     \<longrightarrow> remove_admin s a = s)"
proof -
  have "remove_admin (remove_admin s a) a = remove_admin s a"
    by (simp add: remove_admin_def discard_everywhere_idem AList.delete_idem)
  moreover have "remove_admin s a = s"
    if "connected s a = None"
       "list_all (\<lambda>(c, xs). a \<notin> set xs \<and> xs \<noteq> []) (conversation_subscriptions s)"
    using that by (simp add: remove_admin_def connected_def delete_absent discard_everywhere_absent)
  ultimately show ?thesis by simp
qed

text \<open>admin-3 was never there; admin-1 is removed once and then again.\<close>

theorem remove_admin_idempotent_witness:
  "connected (watching Open) ''admin-3'' = None
 \<and> list_all (\<lambda>(c, xs). ''admin-3'' \<notin> set xs \<and> xs \<noteq> []) (conversation_subscriptions (watching Open))
 \<and> remove_admin (watching Open) ''admin-3'' = watching Open
 \<and> remove_admin (remove_admin (watching Open) ''admin-1'') ''admin-1''
     = remove_admin (watching Open) ''admin-1''
 \<and> remove_admin (watching Open) ''admin-1'' =
     \<lparr>admin_connections = [(''admin-2'', Open)],
      conversation_subscriptions = [(''room-42'', [''admin-2''])], wire = []\<rparr>"
proof -
  have h1: "connected (watching Open) ''admin-3'' = None" by simp
  have h2: "list_all (\<lambda>(c, xs). ''admin-3'' \<notin> set xs \<and> xs \<noteq> []) (conversation_subscriptions (watching Open))"
    by (simp add: watching_def)
  have e: "remove_admin (watching Open) ''admin-1'' =
     \<lparr>admin_connections = [(''admin-2'', Open)],
      conversation_subscriptions = [(''room-42'', [''admin-2''])], wire = []\<rparr>"
    by (simp add: remove_admin_def watching_def discard_def)
  show ?thesis
    using remove_admin_idempotent [of "watching Open" "''admin-3''"]
          remove_admin_idempotent [of "watching Open" "''admin-1''"] h1 h2 e
    by simp
qed

section \<open>Claim C4: the admin token\<close>

text \<open>
  Claim C4 as stated fails: \<open>generate_admin_token\<close> reads no state, so for a room
  that is not active it returns the grant it returns for any room, and not
  \<open>ConversationNotFound\<close>.
\<close>

theorem token_issued_for_unknown_room:
  "generate_admin_token ''room-42'' ''7'' \<noteq> Inl ConversationNotFound
 \<and> generate_admin_token ''room-42'' ''7'' =
     Inr \<lparr>identity = ''admin_7'', display_name = None,
          grants = \<lparr>room_join = True, room = ''room-42'', can_subscribe = True,
                    can_publish = False, hidden = True\<rparr>,
          metadata = []\<rparr>"
  by (simp add: generate_admin_token_def)

text \<open>
  Claim C4, amended. Every call to \<open>generate_admin_token\<close> and to
  \<open>setup_admin_monitoring\<close> returns a token, whether or not the conversation is
  active. The token carries the identity \<open>admin_\<close> followed by the admin id, permits
  joining exactly the named room, permits subscribing, forbids publishing and marks the
  participant hidden.
\<close>

theorem admin_token_grants:
  "\<exists>tok tok'. generate_admin_token room_name admin = Inr tok
     \<and> setup_admin_monitoring admin room_name = Inr tok'
     \<and> identity tok = ''admin_'' @ admin \<and> identity tok' = ''admin_'' @ admin
     \<and> grants tok = grants tok'
     \<and> room_join (grants tok) \<and> room (grants tok) = room_name
     \<and> can_subscribe (grants tok) \<and> \<not> can_publish (grants tok) \<and> hidden (grants tok)"
  by (simp add: generate_admin_token_def setup_admin_monitoring_def)

section \<open>Claim C9: the participant counter\<close>

lemma joins_Cons:
  "joins (e # es) c = (if event_conversation e = c \<and> kind e = ParticipantJoined then 1 else 0) + joins es c"
  by (simp add: joins_def)

lemma leaves_Cons:
  "leaves (e # es) c = (if event_conversation e = c \<and> kind e = ParticipantLeft then 1 else 0) + leaves es c"
  by (simp add: leaves_def)

lemma applyEvent_other:
  "event_conversation e \<noteq> c \<Longrightarrow> map_of (applyEvent reg e) c = map_of reg c"
  by (simp add: applyEvent_def update_conv' split: option.splits)

lemma counted_join:
  "counted reg c n \<Longrightarrow> event_conversation e = c \<Longrightarrow> kind e = ParticipantJoined
     \<Longrightarrow> counted (applyEvent reg e) c (n + 1)"
  by (auto simp: counted_def applyEvent_def update_conv' split: option.splits)

lemma counted_leave:
  "counted reg c n \<Longrightarrow> 0 < n \<Longrightarrow> event_conversation e = c \<Longrightarrow> kind e = ParticipantLeft
     \<Longrightarrow> counted (applyEvent reg e) c (n - 1)"
  by (auto simp: counted_def applyEvent_def update_conv' split: option.splits)

lemma counted_other:
  "counted reg c n \<Longrightarrow> event_conversation e \<noteq> c \<Longrightarrow> counted (applyEvent reg e) c n"
  by (simp add: counted_def applyEvent_other)

lemma counted_run:
  "membership_only evs \<Longrightarrow> balanced c n evs \<Longrightarrow> counted reg c n \<Longrightarrow> 0 \<le> n \<Longrightarrow>
     counted (applyEvents reg evs) c (n + int (joins evs c) - int (leaves evs c))
   \<and> 0 \<le> n + int (joins evs c) - int (leaves evs c)"
proof (induction evs arbitrary: reg n)
  case Nil
  then show ?case by (simp add: applyEvents_def joins_def leaves_def)
next
  case (Cons e es)
  from Cons.prems(1) have k: "kind e = ParticipantJoined \<or> kind e = ParticipantLeft"
    and rest: "membership_only es" by (simp_all add: membership_only_def)
  have run: "applyEvents reg (e # es) = applyEvents (applyEvent reg e) es"
    by (simp add: applyEvents_def)
  show ?case
  proof (cases "event_conversation e = c")
    case False
    with Cons.prems have "balanced c n es" "counted (applyEvent reg e) c n"
      by (simp_all add: counted_other)
    from Cons.IH [OF rest this \<open>0 \<le> n\<close>] False show ?thesis
      by (simp add: run joins_Cons leaves_Cons algebra_simps)
  next
    case True
    show ?thesis
    proof (cases "kind e = ParticipantJoined")
      case True
      with \<open>event_conversation e = c\<close> Cons.prems
      have "balanced c (n + 1) es" "counted (applyEvent reg e) c (n + 1)" "0 \<le> n + 1"
        by (simp_all add: counted_join)
      from Cons.IH [OF rest this] True \<open>event_conversation e = c\<close> show ?thesis
        by (simp add: run joins_Cons leaves_Cons algebra_simps)
    next
      case False
      with k have l: "kind e = ParticipantLeft" by simp
      with \<open>event_conversation e = c\<close> Cons.prems
      have "balanced c (n - 1) es" "0 < n" by simp_all
      moreover from this l \<open>event_conversation e = c\<close> Cons.prems
      have "counted (applyEvent reg e) c (n - 1)" "0 \<le> n - 1"
        by (simp_all add: counted_leave)
      ultimately show ?thesis
        using Cons.IH [OF rest, of "n - 1" "applyEvent reg e"] l \<open>event_conversation e = c\<close>
        by (simp add: run joins_Cons leaves_Cons algebra_simps)
    qed
  qed
qed

lemma applyEvent_keeps_counters:
  assumes "kind e \<noteq> ParticipantJoined" "kind e \<noteq> ParticipantLeft"
  shows "map_option participantCount (map_of (applyEvent reg e) c) = map_option participantCount (map_of reg c)"
    and "map_option publisherCount (map_of (applyEvent reg e) c) = map_option publisherCount (map_of reg c)"
  using assms
  by (cases "kind e"; auto simp: applyEvent_def update_conv' split: option.splits)+

text \<open>
  Claim C9 as stated fails for any registry: one join followed by two leaves is a
  sequence of join and leave events whose joins minus leaves is negative, so no counter
  can equal it and be non-negative. The registry modelled here counts it down to -1.
\<close>

theorem more_leaves_than_joins:
  "membership_only [ev ParticipantJoined, ev ParticipantLeft, ev ParticipantLeft]
 \<and> int (joins [ev ParticipantJoined, ev ParticipantLeft, ev ParticipantLeft] ''room-42'')
     - int (leaves [ev ParticipantJoined, ev ParticipantLeft, ev ParticipantLeft] ''room-42'') = - 1
 \<and> map_option participantCount
      (map_of (applyEvents [] [ev ParticipantJoined, ev ParticipantLeft, ev ParticipantLeft]) ''room-42'')
     = Some (- 1)"
  by (simp add: membership_only_def joins_def leaves_def ev_def applyEvents_def applyEvent_def)

text \<open>
  Claim C9, amended. For every sequence of join and leave events in which no leave of
  a conversation comes when nobody is present in it, applied to the empty registry,
  the session of that conversation has a \<open>participantCount\<close> equal to its joins minus
  its leaves, and not negative. An event of any other kind leaves the
  \<open>participantCount\<close> and the \<open>publisherCount\<close> of every session as they are.
\<close>

theorem participant_count_is_net_membership:
  "(membership_only evs \<and> balanced c 0 evs \<and> map_of (applyEvents [] evs) c = Some sess
      \<longrightarrow> participantCount sess = int (joins evs c) - int (leaves evs c)
        \<and> 0 \<le> participantCount sess)
 \<and> (kind e \<noteq> ParticipantJoined \<and> kind e \<noteq> ParticipantLeft
      \<longrightarrow> map_option participantCount (map_of (applyEvent reg e) c')
            = map_option participantCount (map_of reg c')
        \<and> map_option publisherCount (map_of (applyEvent reg e) c')
            = map_option publisherCount (map_of reg c'))"
proof -
  have "participantCount sess = int (joins evs c) - int (leaves evs c) \<and> 0 \<le> participantCount sess"
    if "membership_only evs" "balanced c 0 evs" "map_of (applyEvents [] evs) c = Some sess"
  proof -
    have "counted [] c 0" by (simp add: counted_def)
    from counted_run [OF that(1,2) this] that(3) show ?thesis
      by (simp add: counted_def)
  qed
  then show ?thesis
    using applyEvent_keeps_counters [of e reg c'] by blast
qed

text \<open>Two joins and one leave of room-42 count one participant; a transcript changes nothing.\<close>

theorem participant_count_is_net_membership_witness:
  "membership_only [ev ParticipantJoined, ev ParticipantJoined, ev ParticipantLeft]
 \<and> balanced ''room-42'' 0 [ev ParticipantJoined, ev ParticipantJoined, ev ParticipantLeft]
 \<and> map_option participantCount
      (map_of (applyEvents [] [ev ParticipantJoined, ev ParticipantJoined, ev ParticipantLeft]) ''room-42'')
     = Some 1
 \<and> int (joins [ev ParticipantJoined, ev ParticipantJoined, ev ParticipantLeft] ''room-42'')
     - int (leaves [ev ParticipantJoined, ev ParticipantJoined, ev ParticipantLeft] ''room-42'') = 1
 \<and> kind (ev FinalTranscript) \<noteq> ParticipantJoined \<and> kind (ev FinalTranscript) \<noteq> ParticipantLeft
 \<and> map_option participantCount
      (map_of (applyEvent (applyEvents [] [ev ParticipantJoined]) (ev FinalTranscript)) ''room-42'')
     = Some 1"
proof -
  let ?evs = "[ev ParticipantJoined, ev ParticipantJoined, ev ParticipantLeft]"
  let ?sess = "\<lparr>startedAt = 0, session_status = Active, participantCount = 1,
                 publisherCount = 0, lastActivityAt = 0\<rparr>"
  have h1: "membership_only ?evs" by (simp add: membership_only_def ev_def)
  have h2: "balanced ''room-42'' 0 ?evs" by (simp add: ev_def)
  have h3: "map_of (applyEvents [] ?evs) ''room-42'' = Some ?sess"
    by (simp add: applyEvents_def applyEvent_def ev_def)
  have h4: "kind (ev FinalTranscript) \<noteq> ParticipantJoined" "kind (ev FinalTranscript) \<noteq> ParticipantLeft"
    by (simp_all add: ev_def)
  have n: "int (joins ?evs ''room-42'') - int (leaves ?evs ''room-42'') = 1"
    by (simp add: joins_def leaves_def ev_def)
  have one: "map_of (applyEvents [] [ev ParticipantJoined]) ''room-42'' = Some ?sess"
    by (simp add: applyEvents_def applyEvent_def ev_def)
  show ?thesis
    using participant_count_is_net_membership
            [where evs = ?evs and c = "''room-42''" and sess = ?sess and e = "ev FinalTranscript"
               and reg = "applyEvents [] [ev ParticipantJoined]" and c' = "''room-42''"]
          h1 h2 h3 h4 n one
    by simp
qed

section \<open>Claim C10: who a message is sent to\<close>




section \<open>Claim C7: events for an ended conversation\<close>

text \<open>
  Claim C7 as stated fails: the monitor's status is ended, the database stores and the
  broadcast returns, and \<open>log_event\<close> appends the event, stores it and hands it to the
  broadcast as for any other conversation.
\<close>

theorem ended_conversation_still_logs:
  "status ended_monitor = ''ended''
 \<and> fst (log_event Returned Returned ended_monitor greeting) = Returned
 \<and> snd (log_event Returned Returned ended_monitor greeting) \<noteq> ended_monitor
 \<and> events (snd (log_event Returned Returned ended_monitor greeting)) = [greeting]
 \<and> stored (snd (log_event Returned Returned ended_monitor greeting)) = [(''room-42'', greeting)]
 \<and> announced (snd (log_event Returned Returned ended_monitor greeting)) = [greeting]"
proof -
  have e: "events (snd (log_event Returned Returned ended_monitor greeting)) = [greeting]"
    by (simp add: log_event_def ended_monitor_def new_monitor_def Let_def)
  have "events ended_monitor = []"
    by (simp add: ended_monitor_def new_monitor_def)
  with e have "snd (log_event Returned Returned ended_monitor greeting) \<noteq> ended_monitor"
    by auto
  then show ?thesis
    by (simp add: e) (simp add: log_event_def ended_monitor_def new_monitor_def Let_def)
qed

text \<open>
  Claim C7, amended. \<open>log_event\<close> does not look at the status of the conversation:
  for every monitor, ended or not, it appends the event to \<open>events\<close> and leaves the
  status as it is, and changing the status changes nothing else of what it does. When
  the database stores the event, the event is stored and handed to the broadcast, and
  the call ends as the broadcast ends: it returns when the broadcast returns, and an
  exception of the broadcast reaches the caller. When the database does not return,
  the call ends as the store ends, with nothing stored and nothing broadcast.
\<close>

theorem log_event_ignores_status:
  "events (snd (log_event store_ends broadcast_ends mon e)) = events mon @ [e]
 \<and> status (snd (log_event store_ends broadcast_ends mon e)) = status mon
 \<and> log_event store_ends broadcast_ends (mon\<lparr>status := st\<rparr>) e
     = (fst (log_event store_ends broadcast_ends mon e),
        (snd (log_event store_ends broadcast_ends mon e))\<lparr>status := st\<rparr>)
 \<and> (store_ends = Returned
      \<longrightarrow> fst (log_event store_ends broadcast_ends mon e) = broadcast_ends
        \<and> stored (snd (log_event store_ends broadcast_ends mon e))
            = stored mon @ [(monitor_conversation_id mon, e)]
        \<and> announced (snd (log_event store_ends broadcast_ends mon e)) = announced mon @ [e])
 \<and> (store_ends \<noteq> Returned
      \<longrightarrow> fst (log_event store_ends broadcast_ends mon e) = store_ends
        \<and> stored (snd (log_event store_ends broadcast_ends mon e)) = stored mon
        \<and> announced (snd (log_event store_ends broadcast_ends mon e)) = announced mon)"
  by (cases store_ends) (simp_all add: log_event_def Let_def)

text \<open>
  The ended monitor of room-42 logs the greeting like an active one; an exception of the
  broadcast, or of the store, reaches the caller.
\<close>

theorem log_event_ignores_status_witness:
  "fst (log_event Returned Returned ended_monitor greeting) = Returned
 \<and> events (snd (log_event Returned Returned ended_monitor greeting)) = events ended_monitor @ [greeting]
 \<and> stored (snd (log_event Returned Returned ended_monitor greeting)) = [(''room-42'', greeting)]
 \<and> fst (log_event Returned (Raised RuntimeError) ended_monitor greeting) = Raised RuntimeError
 \<and> announced (snd (log_event Returned (Raised RuntimeError) ended_monitor greeting)) = [greeting]
 \<and> Raised OtherError \<noteq> Returned
 \<and> fst (log_event (Raised OtherError) Returned ended_monitor greeting) = Raised OtherError
 \<and> stored (snd (log_event (Raised OtherError) Returned ended_monitor greeting)) = []
 \<and> events (snd (log_event (Raised OtherError) Returned ended_monitor greeting)) = [greeting]"
proof -
  have v: "stored ended_monitor = []" "announced ended_monitor = []" "events ended_monitor = []"
    "monitor_conversation_id ended_monitor = ''room-42''"
    by (simp_all add: ended_monitor_def new_monitor_def)
  show ?thesis
    using log_event_ignores_status [where store_ends = Returned and broadcast_ends = Returned
            and mon = ended_monitor and e = greeting]
          log_event_ignores_status [where store_ends = Returned and broadcast_ends = "Raised RuntimeError"
            and mon = ended_monitor and e = greeting]
          log_event_ignores_status [where store_ends = "Raised OtherError" and broadcast_ends = Returned
            and mon = ended_monitor and e = greeting]
          v
    by simp
qed

section \<open>Claim C3: one alert per silence streak\<close>

lemma alerts_simps [simp]:
  "alerts [] = []" "alerts (Publish m # acts) = m # alerts acts" "alerts (Sleep n # acts) = alerts acts"
  by (simp_all add: alerts_def)

lemma sleeps_simps [simp]:
  "sleeps [] = []" "sleeps (Publish m # acts) = sleeps acts" "sleeps (Sleep n # acts) = n # sleeps acts"
  by (simp_all add: sleeps_def)












section \<open>Claim C2: the end of a conversation\<close>

lemma target_admins_ended: "c \<noteq> [] \<Longrightarrow> target_admins s (conversation_ended c) = subs_get s c"
  by (simp add: target_admins_def conversation_ended_def)

lemma subs_get_deleted:
  "subs_get (s\<lparr>conversation_subscriptions := AList.delete c al\<rparr>) c = []"
  by (simp add: subs_get_def delete_conv)

lemma shutdown_event_passes:
  assumes pass: "list_all (passes s) (subs_get s c)" and c: "c \<noteq> []"
  shows "fst (broadcast_shutdown_event s c) = Returned"
    and "wire (snd (broadcast_shutdown_event s c)) =
           wire s @ map (\<lambda>a. (a, conversation_ended c)) (filter (open_for s) (subs_get s c))"
    and "subs_get (snd (broadcast_shutdown_event s c)) c = []"
proof -
  from pass c have "\<forall>b\<in>set (target_admins s (conversation_ended c)). passes s b"
    by (simp add: target_admins_ended list_all_iff)
  note B = broadcast_Returned [OF this]
  show "fst (broadcast_shutdown_event s c) = Returned"
    by (simp add: broadcast_shutdown_event_def B)
  show "wire (snd (broadcast_shutdown_event s c)) =
           wire s @ map (\<lambda>a. (a, conversation_ended c)) (filter (open_for s) (subs_get s c))"
    using c by (simp add: broadcast_shutdown_event_def B target_admins_ended)
  show "subs_get (snd (broadcast_shutdown_event s c)) c = []"
    by (simp add: broadcast_shutdown_event_def B subs_get_deleted)
qed

lemma graceful_shutdown_clean:
  assumes "\<not> (egress_started ag \<and> stop_recording_raises ag)" "\<not> finalize_raises ag"
      and "fst (broadcast_shutdown_event (websocket_manager ag) (agent_conversation ag)) = Returned"
  shows "graceful_shutdown ag =
           (Returned, ag\<lparr>websocket_manager :=
                            snd (broadcast_shutdown_event (websocket_manager ag) (agent_conversation ag)),
                          room_connected := False\<rparr>)"
proof -
  obtain out s1 where b: "broadcast_shutdown_event (websocket_manager ag) (agent_conversation ag) = (out, s1)"
    by (cases "broadcast_shutdown_event (websocket_manager ag) (agent_conversation ag)") auto
  with assms(3) have out: "out = Returned" by simp
  from assms(1,2) have "shutdown_steps ag = (Returned, ag\<lparr>websocket_manager := s1\<rparr>)"
    by (simp add: shutdown_steps_def b out)
  then show ?thesis
    by (simp add: graceful_shutdown_def b)
qed

text \<open>
  Claim C2 as stated fails: recording is on and stopping it raises, so
  \<open>graceful_shutdown\<close> logs the error and never reaches the notification. Both admins
  watching room-42 have open sockets; neither receives anything and both stay
  subscribed.
\<close>

theorem failed_recording_stop_skips_notification:
  "connected (watching Open) ''admin-1'' = Some Open
 \<and> fst (graceful_shutdown (agent_of (watching Open) True)) = Returned
 \<and> websocket_manager (snd (graceful_shutdown (agent_of (watching Open) True))) = watching Open
 \<and> wire (watching Open) = []
 \<and> subs_get (watching Open) ''room-42'' = [''admin-1'', ''admin-2'']"
  by (simp add: graceful_shutdown_def shutdown_steps_def agent_of_def)

text \<open>
  Claim C2, amended. Let \<open>graceful_shutdown\<close> run for a conversation with a
  non-empty id, with the recording stopped and the conversation finalised without an
  exception, and let no socket of a subscriber of the conversation raise an uncaught
  exception or stall, and no other task change the manager during the notification.
  Then the call returns with the
  room disconnected; every subscriber of the conversation whose socket is open
  receives the \<open>conversation_ended\<close> event exactly once, and nothing else is sent; the
  conversation has no subscribers afterwards; and a later publish call on that
  conversation delivers nothing, whatever other tasks do meanwhile.
\<close>

theorem shutdown_notifies_and_detaches:
  assumes rec: "\<not> (egress_started ag \<and> stop_recording_raises ag)"
      and fin: "\<not> finalize_raises ag"
      and c: "agent_conversation ag \<noteq> []"
      and ok: "sets_ok (websocket_manager ag)"
      and pass: "list_all (passes (websocket_manager ag))
                   (subs_get (websocket_manager ag) (agent_conversation ag))"
  shows "(let s = websocket_manager ag; c = agent_conversation ag;
              s' = websocket_manager (snd (graceful_shutdown ag))
          in fst (graceful_shutdown ag) = Returned
           \<and> \<not> room_connected (snd (graceful_shutdown ag))
           \<and> list_all (\<lambda>a. connected s a = Some Open
                  \<longrightarrow> count_list (deliveries s s') (a, conversation_ended c) = 1) (subs_get s c)
           \<and> list_all (\<lambda>d. fst d \<in> set (subs_get s c) \<and> snd d = conversation_ended c) (deliveries s s')
           \<and> subs_get s' c = []
           \<and> (conversation_id m = Some c \<longrightarrow> deliveries s' (snd (broadcast_to_admins s' m sched)) = []))"
proof -
  let ?s = "websocket_manager ag" and ?c = "agent_conversation ag"
  let ?s' = "websocket_manager (snd (graceful_shutdown ag))"
  note E = shutdown_event_passes [OF pass c]
  note G = graceful_shutdown_clean [OF rec fin E(1)]
  have s': "?s' = snd (broadcast_shutdown_event ?s ?c)" by (simp add: G)
  have 1: "fst (graceful_shutdown ag) = Returned" by (simp add: G)
  have 2: "\<not> room_connected (snd (graceful_shutdown ag))" by (simp add: G)
  have del: "deliveries ?s ?s' = map (\<lambda>a. (a, conversation_ended ?c)) (filter (open_for ?s) (subs_get ?s ?c))"
    by (simp add: s' deliveries_def E(2))
  have d: "distinct (filter (open_for ?s) (subs_get ?s ?c))"
    using ok by (simp add: sets_ok_subs_get)
  have 3: "list_all (\<lambda>a. connected ?s a = Some Open
                  \<longrightarrow> count_list (deliveries ?s ?s') (a, conversation_ended ?c) = 1) (subs_get ?s ?c)"
    using d by (simp add: del count_list_tag count_list_distinct list_all_iff open_for_def)
  have 4: "list_all (\<lambda>d. fst d \<in> set (subs_get ?s ?c) \<and> snd d = conversation_ended ?c) (deliveries ?s ?s')"
    by (auto simp: del list_all_iff)
  have 5: "subs_get ?s' ?c = []" by (simp add: s' E(3))
  have 6: "deliveries ?s' (snd (broadcast_to_admins ?s' m sched)) = []" if "conversation_id m = Some ?c"
  proof -
    from that c 5 have "target_admins ?s' m = []" by (simp add: target_admins_def)
    with broadcast_deliveries_any [of ?s' m sched] show ?thesis by auto
  qed
  show ?thesis using 1 2 3 4 5 6 by (simp add: Let_def)
qed

text \<open>The recording stops cleanly; admin-1 has dropped, admin-2 is told once and detached.\<close>

theorem shutdown_notifies_and_detaches_witness:
  "\<not> (egress_started (agent_of (watching Closed) False) \<and> stop_recording_raises (agent_of (watching Closed) False))
 \<and> \<not> finalize_raises (agent_of (watching Closed) False)
 \<and> agent_conversation (agent_of (watching Closed) False) \<noteq> []
 \<and> sets_ok (watching Closed)
 \<and> list_all (passes (watching Closed)) (subs_get (watching Closed) ''room-42'')
 \<and> fst (graceful_shutdown (agent_of (watching Closed) False)) = Returned
 \<and> connected (watching Closed) ''admin-2'' = Some Open
 \<and> count_list (deliveries (watching Closed)
        (websocket_manager (snd (graceful_shutdown (agent_of (watching Closed) False)))))
      (''admin-2'', conversation_ended ''room-42'') = 1
 \<and> subs_get (websocket_manager (snd (graceful_shutdown (agent_of (watching Closed) False)))) ''room-42'' = []
 \<and> deliveries (websocket_manager (snd (graceful_shutdown (agent_of (watching Closed) False))))
      (snd (broadcast_to_admins (websocket_manager (snd (graceful_shutdown (agent_of (watching Closed) False)))) hello
         joins_meanwhile))
     = []"
proof -
  let ?ag = "agent_of (watching Closed) False"
  have f: "websocket_manager ?ag = watching Closed" "agent_conversation ?ag = ''room-42''"
    by (simp_all add: agent_of_def)
  have h1: "\<not> (egress_started ?ag \<and> stop_recording_raises ?ag)" by (simp add: agent_of_def)
  have h2: "\<not> finalize_raises ?ag" by (simp add: agent_of_def)
  have h3: "agent_conversation ?ag \<noteq> []" by (simp add: agent_of_def)
  have h4: "sets_ok (websocket_manager ?ag)" by (simp add: f)
  have h5: "list_all (passes (websocket_manager ?ag)) (subs_get (websocket_manager ?ag) (agent_conversation ?ag))"
    by (simp add: f passes_def)
  have m: "conversation_id hello = Some ''room-42''" by (simp add: hello_def)
  show ?thesis
    using shutdown_notifies_and_detaches [OF h1 h2 h3 h4 h5, where m = hello and sched = joins_meanwhile] h1 h2 h3 h4 h5 m
    by (simp add: Let_def f)
qed

end
